theory Spec2Isabelle
  imports Main
begin

section \<open>Python values\<close>

text \<open>
  The handler of \<^verbatim>\<open>app.py\<close> works on decoded JSON: the request body, and the value
  that \<^verbatim>\<open>json.loads\<close> builds from the completion text. A Python \<^verbatim>\<open>str\<close> is a
  \<^typ>\<open>string\<close> (code points below 256), a \<^verbatim>\<open>dict\<close> is an association list in
  insertion order with distinct keys, a Python \<^verbatim>\<open>float\<close> is identified by the text
  \<^verbatim>\<open>repr\<close> prints for it.
\<close>

datatype json =
    JNull
  | JBool bool
  | JInt int
  | JFloat string
  | JStr string
  | JArr "json list"
  | JObj "(string \<times> json) list"

datatype py_exn = TypeError | AttributeError | JSONDecodeError | ClientError string

text \<open>
  \<open>ClientError s\<close> is any exception the LLM client raises, \<open>s\<close> being its
  \<^verbatim>\<open>str(e)\<close>. The text of the built-in errors is CPython's and is never empty.
\<close>

fun exn_str_empty :: "py_exn \<Rightarrow> bool" where
  "exn_str_empty (ClientError s) = (s = [])"
| "exn_str_empty _ = False"

text \<open>An f-string made of a literal prefix followed by \<^verbatim>\<open>str(e)\<close>, or a plain literal.\<close>

datatype msg_text = Lit string | Fmt string py_exn

fun text_truthy :: "msg_text \<Rightarrow> bool" where
  "text_truthy (Lit s) = (s \<noteq> [])"
| "text_truthy (Fmt p e) = (p \<noteq> [] \<or> \<not> exn_str_empty e)"

text \<open>Truth value of a Python object, as \<^verbatim>\<open>not x\<close> and \<^verbatim>\<open>x if c else y\<close> test it.\<close>

fun truthy :: "json \<Rightarrow> bool" where
  "truthy JNull = False"
| "truthy (JBool b) = b"
| "truthy (JInt i) = (i \<noteq> 0)"
| "truthy (JFloat r) = (r \<noteq> ''0.0'' \<and> r \<noteq> ''-0.0'')"
| "truthy (JStr s) = (s \<noteq> [])"
| "truthy (JArr xs) = (xs \<noteq> [])"
| "truthy (JObj kvs) = (kvs \<noteq> [])"

text \<open>\<^verbatim>\<open>d.get(key, default)\<close>.\<close>

definition dict_get :: "(string \<times> 'a) list \<Rightarrow> string \<Rightarrow> 'a \<Rightarrow> 'a" where
  "dict_get d k dflt = (case map_of d k of Some v \<Rightarrow> v | None \<Rightarrow> dflt)"

text \<open>\<^verbatim>\<open>sep.join(xs)\<close> on strings.\<close>

fun str_join :: "string \<Rightarrow> string list \<Rightarrow> string" where
  "str_join sep [] = []"
| "str_join sep [x] = x"
| "str_join sep (x # y # ys) = x @ sep @ str_join sep (y # ys)"

text \<open>\<^verbatim>\<open>f in s\<close> on strings: \<open>f\<close> occurs in \<open>s\<close> as a contiguous run.\<close>

fun str_contains :: "string \<Rightarrow> string \<Rightarrow> bool" where
  "str_contains [] f = (f = [])"
| "str_contains (c # cs) f = (take (length f) (c # cs) = f \<or> str_contains cs f)"

subsection \<open>\<^verbatim>\<open>str()\<close> and \<^verbatim>\<open>repr()\<close>\<close>

definition digit_char :: "nat \<Rightarrow> char" where
  "digit_char d = char_of (of_char (CHR ''0'') + d)"

function dec_digits :: "nat \<Rightarrow> string" where
  "dec_digits n = (if n < 10 then [digit_char n] else dec_digits (n div 10) @ [digit_char (n mod 10)])"
  by pat_completeness auto
termination
  by (relation "measure id") auto

definition int_str :: "int \<Rightarrow> string" where
  "int_str i = (if i < 0 then CHR ''-'' # dec_digits (nat (- i)) else dec_digits (nat i))"

definition hex_char :: "nat \<Rightarrow> char" where
  "hex_char d = (if d < 10 then digit_char d else char_of (of_char (CHR ''a'') + (d - 10)))"

definition printable :: "char \<Rightarrow> bool" where
  "printable c = (let n = (of_char c :: nat) in
     (32 \<le> n \<and> n < 127) \<or> (160 < n \<and> n \<noteq> 173))"

definition repr_char :: "char \<Rightarrow> char \<Rightarrow> string" where
  "repr_char quote c =
     (if c = quote \<or> c = CHR 0x5C then [CHR 0x5C, c]
      else if c = CHR 0x09 then [CHR 0x5C, CHR ''t'']
      else if c = CHR 0x0A then [CHR 0x5C, CHR ''n'']
      else if c = CHR 0x0D then [CHR 0x5C, CHR ''r'']
      else if printable c then [c]
      else [CHR 0x5C, CHR ''x'', hex_char (of_char c div 16), hex_char (of_char c mod 16)])"

definition repr_str :: "string \<Rightarrow> string" where
  "repr_str s =
     (let quote = (if CHR 0x27 \<in> set s \<and> CHR 0x22 \<notin> set s then CHR 0x22 else CHR 0x27)
      in quote # concat (map (repr_char quote) s) @ [quote])"

fun py_repr :: "json \<Rightarrow> string"
  and repr_items :: "json list \<Rightarrow> string list"
  and repr_members :: "(string \<times> json) list \<Rightarrow> string list" where
  "py_repr JNull = ''None''"
| "py_repr (JBool b) = (if b then ''True'' else ''False'')"
| "py_repr (JInt i) = int_str i"
| "py_repr (JFloat r) = r"
| "py_repr (JStr s) = repr_str s"
| "py_repr (JArr xs) = ''['' @ str_join '', '' (repr_items xs) @ '']''"
| "py_repr (JObj kvs) = ''{'' @ str_join '', '' (repr_members kvs) @ ''}''"
| "repr_items [] = []"
| "repr_items (x # xs) = py_repr x # repr_items xs"
| "repr_members [] = []"
| "repr_members (kv # kvs) = (repr_str (fst kv) @ '': '' @ py_repr (snd kv)) # repr_members kvs"

definition py_str :: "json \<Rightarrow> string" where
  "py_str v = (case v of JStr s \<Rightarrow> s | _ \<Rightarrow> py_repr v)"

section \<open>Prompt construction\<close>

definition system_prompt :: string where
  \<open>system_prompt =
     ''Anda adalah seorang ahli keamanan yang mengkhususkan diri dalam mengidentifikasi potensi kasus penyalahgunaan (misuse case) untuk sistem perangkat lunak.\<newline>'' @
     ''        Diberikan sebuah use case, identifikasi 3-5 skenario penyalahgunaan potensial yang dapat mengancamnya.\<newline>'' @
     ''        Format respons Anda sebagai array JSON dengan struktur berikut:\<newline>'' @
     ''        [\<newline>'' @
     ''            {\<newline>'' @
     ''                "name": "Nama singkat kasus penyalahgunaan",\<newline>'' @
     ''                "description": "Deskripsi detail yang menjelaskan skenario penyalahgunaan",\<newline>'' @
     ''                "actor": "Jenis aktor berbahaya yang mungkin melakukan ini",\<newline>'' @
     ''                "impact": "Dampak potensial dari kasus penyalahgunaan ini"\<newline>'' @
     ''            },\<newline>'' @
     ''            ...\<newline>'' @
     ''        ]\<newline>'' @
     ''        PENTING: Respons Anda HARUS sepenuhnya dalam Bahasa Indonesia, termasuk semua nilai dalam JSON.\<newline>'' @
     ''        Hanya berikan array JSON saja tanpa tambahan kalimat lain.''\<close>

text \<open>
  \<^verbatim>\<open>', '.join(other_use_cases)\<close>: a \<^verbatim>\<open>str\<close> is joined character by character, a
  \<^verbatim>\<open>dict\<close> by its keys, a list only when every item is a \<^verbatim>\<open>str\<close>; anything else
  raises \<^verbatim>\<open>TypeError\<close>.
\<close>

fun str_items :: "json list \<Rightarrow> py_exn + string list" where
  "str_items [] = Inr []"
| "str_items (JStr s # xs) = (case str_items xs of Inl e \<Rightarrow> Inl e | Inr ss \<Rightarrow> Inr (s # ss))"
| "str_items (_ # xs) = Inl TypeError"

fun join_use_cases :: "json \<Rightarrow> py_exn + string" where
  "join_use_cases (JStr s) = Inr (str_join '', '' (map (\<lambda>c. [c]) s))"
| "join_use_cases (JObj kvs) = Inr (str_join '', '' (map fst kvs))"
| "join_use_cases (JArr xs) =
     (case str_items xs of Inl e \<Rightarrow> Inl e | Inr ss \<Rightarrow> Inr (str_join '', '' ss))"
| "join_use_cases _ = Inl TypeError"

definition user_prompt :: "json \<Rightarrow> json \<Rightarrow> json \<Rightarrow> py_exn + string" where
  "user_prompt use_case_name system_name other_use_cases =
     (case (if truthy other_use_cases then join_use_cases other_use_cases else Inr ''Tidak ada'') of
        Inl e \<Rightarrow> Inl e
      | Inr related \<Rightarrow> Inr (
          ''Use Case: '' @ py_str use_case_name @ ''\<newline>'' @
          ''        Sistem: '' @ py_str system_name @ ''\<newline>'' @
          ''        Use Case Terkait: '' @ related @ ''\<newline>'' @
          ''        Harap generate 3-5 kasus penyalahgunaan (misuse case) realistis yang dapat mengancam use case ini.\<newline>'' @
          ''        Fokus pada kerentanan keamanan, pola penggunaan berbahaya, dan potensi eksploitasi sistem.\<newline>'' @
          ''        Respons Anda HARUS dalam Bahasa Indonesia.''))"

type_synonym chat_message = "(string \<times> string) list"

section \<open>APILogger\<close>

text \<open>
  A log line is kept as the f-string that produced it. Time stamps and durations depend
  on the clock and are not modelled: \<open>Duration\<close> stands for the duration line.
\<close>

datatype log_line =
    ApiRequest "string option"
  | Temperature string
  | MessageCount nat
  | LastMessagePreview string
  | Param string string
  | ApiResponse string
  | Duration
  | ContentLength nat
  | ErrorText msg_text
  | RootError string py_exn
  | Traceback

definition preview :: "string \<Rightarrow> string" where
  "preview last_msg = take 100 last_msg @ (if length last_msg > 100 then ''...'' else [])"

definition log_request ::
  "string option \<Rightarrow> chat_message list \<Rightarrow> string \<Rightarrow> (string \<times> json) list \<Rightarrow> log_line list" where
  "log_request model messages temperature kwargs =
     [ApiRequest model, Temperature temperature, MessageCount (length messages)] @
     (if messages \<noteq> [] \<and> length messages > 0
      then [LastMessagePreview (preview (dict_get (last messages) ''content'' []))]
      else []) @
     map (\<lambda>(key, val). Param key (py_str val)) kwargs"

definition log_response :: "string \<Rightarrow> nat option \<Rightarrow> msg_text option \<Rightarrow> log_line list" where
  "log_response status content_length error =
     [ApiResponse status, Duration] @
     (case content_length of Some n \<Rightarrow> (if n \<noteq> 0 then [ContentLength n] else []) | None \<Rightarrow> []) @
     (case error of Some e \<Rightarrow> (if text_truthy e then [ErrorText e] else []) | None \<Rightarrow> [])"

section \<open>The endpoint \<^verbatim>\<open>POST /generate_misuse_cases\<close>\<close>

record response =
  http_status :: nat
  status :: string
  message :: "msg_text option"
  data :: "json option"

text \<open>What the handler does besides answering: log lines, and the one outbound call.\<close>

datatype event = Log log_line | GatewayCall "string option" "chat_message list"

text \<open>
  The client: \<^verbatim>\<open>client.chat.completions.create(...)\<close> followed by
  \<^verbatim>\<open>response.choices[0].message.content\<close>. It raises, or gives the content, which may
  be \<^verbatim>\<open>None\<close>.
\<close>

type_synonym llm_client = "string option \<Rightarrow> chat_message list \<Rightarrow> py_exn + string option"

record globals =
  AISUITE_AVAILABLE :: bool
  client :: "llm_client option"
  MODEL :: "string option"

definition required_fields :: "string list" where
  "required_fields = [''name'', ''description'', ''actor'', ''impact'']"

definition placeholder :: "string \<Rightarrow> string" where
  "placeholder field = ''Informasi '' @ field @ '' tidak tersedia''"

text \<open>
  One round of the inner loop: \<^verbatim>\<open>if field not in misuse_case: misuse_case[field] = ...\<close>.
  On a \<^verbatim>\<open>str\<close> the test is substring search and the assignment raises; on a list the
  test is membership and the assignment raises; on a number, a boolean or \<^verbatim>\<open>None\<close>
  the test itself raises.
\<close>

fun fill_field :: "json \<Rightarrow> string \<Rightarrow> py_exn + json" where
  "fill_field (JObj kvs) field =
     Inr (if field \<in> set (map fst kvs) then JObj kvs
          else JObj (kvs @ [(field, JStr (placeholder field))]))"
| "fill_field (JStr s) field = (if str_contains s field then Inr (JStr s) else Inl TypeError)"
| "fill_field (JArr xs) field = (if JStr field \<in> set xs then Inr (JArr xs) else Inl TypeError)"
| "fill_field _ field = Inl TypeError"

fun fill_fields :: "json \<Rightarrow> string list \<Rightarrow> py_exn + json" where
  "fill_fields misuse_case [] = Inr misuse_case"
| "fill_fields misuse_case (field # others) =
     (case fill_field misuse_case field of
        Inl e \<Rightarrow> Inl e
      | Inr misuse_case' \<Rightarrow> fill_fields misuse_case' others)"

fun validate_each :: "json list \<Rightarrow> py_exn + json list" where
  "validate_each [] = Inr []"
| "validate_each (misuse_case # rest) =
     (case fill_fields misuse_case required_fields of
        Inl e \<Rightarrow> Inl e
      | Inr misuse_case' \<Rightarrow>
          (case validate_each rest of Inl e \<Rightarrow> Inl e | Inr rest' \<Rightarrow> Inr (misuse_case' # rest')))"

text \<open>
  The outer loop \<^verbatim>\<open>for i, misuse_case in enumerate(misuse_cases)\<close>, on whatever value
  was decoded: a list is walked item by item (its dictionaries updated in place), a
  \<^verbatim>\<open>dict\<close> by its keys, a \<^verbatim>\<open>str\<close> by its characters; anything else is not iterable.
\<close>

fun validate_structure :: "json \<Rightarrow> py_exn + json" where
  "validate_structure (JArr xs) =
     (case validate_each xs of Inl e \<Rightarrow> Inl e | Inr xs' \<Rightarrow> Inr (JArr xs'))"
| "validate_structure (JObj kvs) =
     (case validate_each (map (\<lambda>kv. JStr (fst kv)) kvs) of
        Inl e \<Rightarrow> Inl e | Inr _ \<Rightarrow> Inr (JObj kvs))"
| "validate_structure (JStr s) =
     (case validate_each (map (\<lambda>c. JStr [c]) s) of
        Inl e \<Rightarrow> Inl e | Inr _ \<Rightarrow> Inr (JStr s))"
| "validate_structure _ = Inl TypeError"

subsection \<open>The rescue pattern\<close>

text \<open>
  \<^verbatim>\<open>re.search(r'\[\s*\{.*\}\s*\]', result, re.DOTALL)\<close>. The pattern is a sequence of
  single characters and greedy stars of single characters, matched the way the
  backtracking engine does: a star first takes one more character, and gives it back
  only when the rest of the pattern fails; the search tries every start position from
  the left. \<open>Space\<close> is \<^verbatim>\<open>\s\<close> on a \<^verbatim>\<open>str\<close> (Unicode white space), \<open>AnyChar\<close>
  is the dot under \<^verbatim>\<open>DOTALL\<close>.
\<close>

definition is_space :: "char \<Rightarrow> bool" where
  "is_space c = (let n = (of_char c :: nat) in
     (9 \<le> n \<and> n \<le> 13) \<or> (28 \<le> n \<and> n \<le> 32) \<or> n = 133 \<or> n = 160)"

datatype atom = Chr char | Space | AnyChar

datatype item = One atom | Star atom

fun atom_matches :: "atom \<Rightarrow> char \<Rightarrow> bool" where
  "atom_matches (Chr a) c = (c = a)"
| "atom_matches Space c = is_space c"
| "atom_matches AnyChar c = True"

text \<open>\<open>match_here p s\<close> is what is left of \<open>s\<close> after the match of \<open>p\<close> at its start.\<close>

fun match_here :: "item list \<Rightarrow> string \<Rightarrow> string option" where
  "match_here [] s = Some s"
| "match_here (One a # p) [] = None"
| "match_here (One a # p) (c # cs) = (if atom_matches a c then match_here p cs else None)"
| "match_here (Star a # p) [] = match_here p []"
| "match_here (Star a # p) (c # cs) =
     (if atom_matches a c
      then (case match_here (Star a # p) cs of
              Some rest \<Rightarrow> Some rest
            | None \<Rightarrow> match_here p (c # cs))
      else match_here p (c # cs))"

text \<open>\<open>re_search p s\<close> is \<^verbatim>\<open>group(0)\<close> of the first match, \<open>None\<close> when there is none.\<close>

fun re_search :: "item list \<Rightarrow> string \<Rightarrow> string option" where
  "re_search p [] = (case match_here p [] of Some rest \<Rightarrow> Some [] | None \<Rightarrow> None)"
| "re_search p (c # cs) =
     (case match_here p (c # cs) of
        Some rest \<Rightarrow> Some (take (length (c # cs) - length rest) (c # cs))
      | None \<Rightarrow> re_search p cs)"

definition json_pattern :: "item list" where
  "json_pattern =
     [One (Chr (CHR ''['')), Star Space, One (Chr (CHR ''{'')), Star AnyChar,
      One (Chr (CHR ''}'')), Star Space, One (Chr (CHR '']''))]"

text \<open>The end of the pattern: closing brace, white space, closing bracket.\<close>

definition closing :: "item list" where
  "closing = [One (Chr (CHR ''}'')), Star Space, One (Chr (CHR '']''))]"

subsection \<open>Responses\<close>

definition service_unavailable :: response where
  "service_unavailable =
     \<lparr>http_status = 503, status = ''error'',
      message = Some (Lit ''AI service tidak tersedia. Fitur ini memerlukan konfigurasi AI.''),
      data = None\<rparr>"

definition validation_error :: response where
  "validation_error =
     \<lparr>http_status = 400, status = ''error'',
      message = Some (Lit ''Nama use case diperlukan''), data = None\<rparr>"

definition success :: "json \<Rightarrow> response" where
  "success misuse_cases =
     \<lparr>http_status = 200, status = ''success'', message = None, data = Some misuse_cases\<rparr>"

definition error_msg :: string where
  "error_msg = ''Gagal memproses respons LLM sebagai JSON''"

text \<open>The end of the \<^verbatim>\<open>except json.JSONDecodeError\<close> block: every rescue failed.\<close>

definition parse_failure :: "response \<times> event list" where
  "parse_failure =
     (\<lparr>http_status = 200, status = ''error'', message = Some (Lit error_msg),
       data = Some (JArr [])\<rparr>,
      map Log (log_response ''error'' None (Some (Lit error_msg))))"

text \<open>The inner \<^verbatim>\<open>except Exception as e\<close>, around the call and the parsing.\<close>

definition api_error :: "py_exn \<Rightarrow> response \<times> event list" where
  "api_error e =
     (\<lparr>http_status = 200, status = ''error'',
       message = Some (Fmt ''Error saat generate kasus penyalahgunaan: '' e),
       data = Some (JArr [])\<rparr>,
      map Log (log_response ''error'' None (Some (Fmt [] e)) @
               [RootError ''LLM API error: '' e, Traceback]))"

text \<open>The outer \<^verbatim>\<open>except Exception as e\<close>.\<close>

definition unexpected_error :: "py_exn \<Rightarrow> response \<times> event list" where
  "unexpected_error e =
     (\<lparr>http_status = 500, status = ''error'',
       message = Some (Fmt ''Kesalahan tidak terduga: '' e),
       data = Some (JArr [])\<rparr>,
      map Log [RootError ''Unexpected error in generate_misuse_cases: '' e, Traceback])"

subsection \<open>The handler\<close>

text \<open>
  \<^verbatim>\<open>json.loads\<close> belongs to the Python library, not to the repository: the handler
  takes it as the argument \<open>loads\<close>, with \<open>None\<close> for \<^verbatim>\<open>JSONDecodeError\<close>. On a
  \<^verbatim>\<open>str\<close> that is its only failure, short of the interpreter's limits (recursion
  depth, digits of an integer), which are not modelled.

  \<open>parse_completion\<close> is the block \<^verbatim>\<open>try: misuse_cases = json.loads(result) ...\<close> with
  its \<^verbatim>\<open>except json.JSONDecodeError\<close>.
\<close>

definition parse_completion :: "(string \<Rightarrow> json option) \<Rightarrow> string \<Rightarrow> response \<times> event list" where
  "parse_completion loads result =
     (case loads result of
        Some misuse_cases \<Rightarrow>
          (case validate_structure misuse_cases of
             Inl e \<Rightarrow> api_error e
           | Inr misuse_cases' \<Rightarrow> (success misuse_cases', []))
      | None \<Rightarrow>
          (case re_search json_pattern result of
             Some json_match \<Rightarrow>
               (case loads json_match of
                  Some misuse_cases \<Rightarrow> (success misuse_cases, [])
                | None \<Rightarrow>
                    (fst parse_failure,
                     map Log (log_response ''error'' None
                                (Some (Fmt ''Kesalahan parsing JSON: '' JSONDecodeError)) @
                              [RootError ''JSON parse error: '' JSONDecodeError, Traceback]) @
                     snd parse_failure))
           | None \<Rightarrow> parse_failure))"

text \<open>
  What follows the call: \<open>outcome\<close> is what the client did. A content that is
  \<^verbatim>\<open>None\<close> makes \<^verbatim>\<open>json.loads\<close> raise \<^verbatim>\<open>TypeError\<close>.
\<close>

definition after_call ::
  "(string \<Rightarrow> json option) \<Rightarrow> py_exn + string option \<Rightarrow> response \<times> event list" where
  "after_call loads outcome =
     (case outcome of
        Inl e \<Rightarrow> api_error e
      | Inr result \<Rightarrow>
          (let logged = map Log (log_response ''success''
                           (Some (case result of Some r \<Rightarrow> length r | None \<Rightarrow> 0)) None);
               answer = (case result of
                           None \<Rightarrow> api_error TypeError
                         | Some r \<Rightarrow> parse_completion loads r)
           in (fst answer, logged @ snd answer)))"

definition chat_messages :: "string \<Rightarrow> chat_message list" where
  "chat_messages prompt =
     [[(''role'', ''system''), (''content'', system_prompt)],
      [(''role'', ''user''), (''content'', prompt)]]"

text \<open>
  \<open>generate_misuse_cases loads g body\<close>: the view function, on a request whose JSON body
  is \<open>body\<close>, in a process whose module globals are \<open>g\<close>. It gives the response and
  what it did on the way, in order.
\<close>

definition generate_misuse_cases ::
  "(string \<Rightarrow> json option) \<Rightarrow> globals \<Rightarrow> json \<Rightarrow> response \<times> event list" where
  "generate_misuse_cases loads g body =
     (case (AISUITE_AVAILABLE g, client g) of
        (True, Some create) \<Rightarrow>
          (case body of
             JObj d \<Rightarrow>
               (let use_case_name = dict_get d ''useCaseName'' (JStr []);
                    system_name = dict_get d ''systemName'' (JStr ''the system'');
                    other_use_cases = dict_get d ''otherUseCases'' (JArr [])
                in if \<not> truthy use_case_name then (validation_error, [])
                   else
                     (case user_prompt use_case_name system_name other_use_cases of
                        Inl e \<Rightarrow> unexpected_error e
                      | Inr prompt \<Rightarrow>
                          (let messages = chat_messages prompt;
                               logged = map Log (log_request (MODEL g) messages ''0.7''
                                          [(''user_case'', use_case_name),
                                           (''system_name'', system_name)]);
                               answer = after_call loads (create (MODEL g) messages)
                           in (fst answer,
                               logged @ [GatewayCall (MODEL g) messages] @ snd answer))))
           | _ \<Rightarrow> unexpected_error AttributeError)
      | _ \<Rightarrow> (service_unavailable, []))"

section \<open>A JSON decoder\<close>

text \<open>
  The theorems on the handler hold for every decoder. To run the handler on a concrete
  completion text a decoder is needed: \<open>json_loads\<close> follows \<^verbatim>\<open>json.loads\<close> in its
  default, strict mode (white space is blank, tab, line feed and carriage return; control
  characters are refused inside strings; \<^verbatim>\<open>NaN\<close>, \<^verbatim>\<open>Infinity\<close> and
  \<^verbatim>\<open>-Infinity\<close> are accepted; the last of two equal keys wins). The conversion of a
  number text with a fraction or an exponent to a float is the argument \<open>parse_float\<close>,
  as it is an argument of \<^verbatim>\<open>json.loads\<close>. An escape \<^verbatim>\<open>\uXXXX\<close> above
  code point 255 has no \<^typ>\<open>char\<close> and is refused. Nesting is bounded by the fuel
  only, twice the length of the text, which every text stays below.
\<close>

definition json_ws :: "char \<Rightarrow> bool" where
  "json_ws c = (c = CHR '' '' \<or> c = CHR 0x09 \<or> c = CHR 0x0A \<or> c = CHR 0x0D)"

definition skip_ws :: "string \<Rightarrow> string" where
  "skip_ws s = dropWhile json_ws s"

definition is_digit :: "char \<Rightarrow> bool" where
  "is_digit c = (let n = (of_char c :: nat) in 48 \<le> n \<and> n \<le> 57)"

definition digit_val :: "char \<Rightarrow> nat" where
  "digit_val c = of_char c - of_char (CHR ''0'')"

definition hex_val :: "char \<Rightarrow> nat option" where
  "hex_val c =
     (let n = (of_char c :: nat) in
      if is_digit c then Some (digit_val c)
      else if 97 \<le> n \<and> n \<le> 102 then Some (n - 97 + 10)
      else if 65 \<le> n \<and> n \<le> 70 then Some (n - 65 + 10)
      else None)"

fun hex4 :: "string \<Rightarrow> nat option" where
  "hex4 (a # b # c # d # rest) =
     (case (hex_val a, hex_val b, hex_val c, hex_val d) of
        (Some x, Some y, Some z, Some w) \<Rightarrow> Some (((x * 16 + y) * 16 + z) * 16 + w)
      | _ \<Rightarrow> None)"
| "hex4 _ = None"

definition unescape :: "char \<Rightarrow> char option" where
  "unescape e =
     (if e = CHR 0x22 \<or> e = CHR 0x5C \<or> e = CHR ''/'' then Some e
      else if e = CHR ''b'' then Some (CHR 0x08)
      else if e = CHR ''f'' then Some (CHR 0x0C)
      else if e = CHR ''n'' then Some (CHR 0x0A)
      else if e = CHR ''r'' then Some (CHR 0x0D)
      else if e = CHR ''t'' then Some (CHR 0x09)
      else None)"

text \<open>\<open>scan_string s\<close>: \<open>s\<close> starts after the opening quote.\<close>

fun scan_string :: "string \<Rightarrow> (string \<times> string) option" where
  "scan_string [] = None"
| "scan_string (c # cs) =
     (if c = CHR 0x22 then Some ([], cs)
      else if c = CHR 0x5C then
        (case cs of
           [] \<Rightarrow> None
         | e # r \<Rightarrow>
             (if e = CHR ''u'' then
                (case hex4 r of
                   Some n \<Rightarrow>
                     (if n < 256 then
                        (case scan_string (drop 4 r) of
                           Some (t, rest) \<Rightarrow> Some (char_of n # t, rest)
                         | None \<Rightarrow> None)
                      else None)
                 | None \<Rightarrow> None)
              else
                (case unescape e of
                   Some ch \<Rightarrow>
                     (case scan_string r of
                        Some (t, rest) \<Rightarrow> Some (ch # t, rest)
                      | None \<Rightarrow> None)
                 | None \<Rightarrow> None)))
      else if (of_char c :: nat) < 32 then None
      else (case scan_string cs of Some (t, rest) \<Rightarrow> Some (c # t, rest) | None \<Rightarrow> None))"

definition digits_val :: "string \<Rightarrow> nat" where
  "digits_val ds = foldl (\<lambda>acc c. 10 * acc + digit_val c) 0 ds"

text \<open>
  A number is \<^verbatim>\<open>-?(0|[1-9][0-9]*)(\.[0-9]+)?([eE][-+]?[0-9]+)?\<close>, each optional part
  taken only when complete.
\<close>

definition scan_number :: "(string \<Rightarrow> string) \<Rightarrow> string \<Rightarrow> (json \<times> string) option" where
  "scan_number parse_float s =
     (let neg = (case s of c # _ \<Rightarrow> c = CHR ''-'' | [] \<Rightarrow> False);
          s1 = (if neg then tl s else s);
          ip = (case s1 of
                  [] \<Rightarrow> []
                | c # _ \<Rightarrow> if c = CHR ''0'' then [c] else takeWhile is_digit s1);
          s2 = drop (length ip) s1;
          frac = (case s2 of
                    c # d # _ \<Rightarrow>
                      if c = CHR ''.'' \<and> is_digit d then c # takeWhile is_digit (tl s2) else []
                  | _ \<Rightarrow> []);
          s3 = drop (length frac) s2;
          ex = (case s3 of
                  c # r \<Rightarrow>
                    if c = CHR ''e'' \<or> c = CHR ''E'' then
                      (let sgn = (case r of d # _ \<Rightarrow>
                                     if d = CHR ''+'' \<or> d = CHR ''-'' then [d] else []
                                   | [] \<Rightarrow> []);
                           ds = takeWhile is_digit (drop (length sgn) r)
                       in if ds = [] then [] else c # sgn @ ds)
                    else []
                | [] \<Rightarrow> []);
          s4 = drop (length ex) s3
      in if ip = [] then None
         else if frac = [] \<and> ex = []
         then Some (JInt (if neg then - int (digits_val ip) else int (digits_val ip)), s4)
         else Some (JFloat (parse_float ((if neg then ''-'' else []) @ ip @ frac @ ex)), s4))"

text \<open>\<^verbatim>\<open>d[k] = v\<close>: a key already present keeps its place.\<close>

definition dict_set :: "(string \<times> json) list \<Rightarrow> string \<Rightarrow> json \<Rightarrow> (string \<times> json) list" where
  "dict_set d k v =
     (if k \<in> set (map fst d) then map (\<lambda>kv. if fst kv = k then (k, v) else kv) d
      else d @ [(k, v)])"

definition dict_of_pairs :: "(string \<times> json) list \<Rightarrow> (string \<times> json) list" where
  "dict_of_pairs ps = foldl (\<lambda>d kv. dict_set d (fst kv) (snd kv)) [] ps"

fun scan_once :: "nat \<Rightarrow> (string \<Rightarrow> string) \<Rightarrow> string \<Rightarrow> (json \<times> string) option"
  and scan_items :: "nat \<Rightarrow> (string \<Rightarrow> string) \<Rightarrow> string \<Rightarrow> (json list \<times> string) option"
  and scan_pairs ::
    "nat \<Rightarrow> (string \<Rightarrow> string) \<Rightarrow> string \<Rightarrow> ((string \<times> json) list \<times> string) option" where
  "scan_once 0 pf s = None"
| "scan_once (Suc n) pf s =
     (case s of
        [] \<Rightarrow> None
      | c # cs \<Rightarrow>
          if c = CHR 0x22 then
            (case scan_string cs of Some (t, rest) \<Rightarrow> Some (JStr t, rest) | None \<Rightarrow> None)
          else if c = CHR ''{'' then
            (case skip_ws cs of
               [] \<Rightarrow> None
             | d # r \<Rightarrow>
                 if d = CHR ''}'' then Some (JObj [], r)
                 else (case scan_pairs n pf (d # r) of
                         Some (ps, rest) \<Rightarrow> Some (JObj (dict_of_pairs ps), rest)
                       | None \<Rightarrow> None))
          else if c = CHR ''['' then
            (case skip_ws cs of
               [] \<Rightarrow> None
             | d # r \<Rightarrow>
                 if d = CHR '']'' then Some (JArr [], r)
                 else (case scan_items n pf (d # r) of
                         Some (vs, rest) \<Rightarrow> Some (JArr vs, rest)
                       | None \<Rightarrow> None))
          else if c = CHR ''n'' then
            (if take 4 s = ''null'' then Some (JNull, drop 4 s) else None)
          else if c = CHR ''t'' then
            (if take 4 s = ''true'' then Some (JBool True, drop 4 s) else None)
          else if c = CHR ''f'' then
            (if take 5 s = ''false'' then Some (JBool False, drop 5 s) else None)
          else if c = CHR ''N'' then
            (if take 3 s = ''NaN'' then Some (JFloat ''nan'', drop 3 s) else None)
          else if c = CHR ''I'' then
            (if take 8 s = ''Infinity'' then Some (JFloat ''inf'', drop 8 s) else None)
          else if c = CHR ''-'' \<and> take 9 s = ''-Infinity'' then Some (JFloat ''-inf'', drop 9 s)
          else scan_number pf s)"
| "scan_items 0 pf s = None"
| "scan_items (Suc n) pf s =
     (case scan_once n pf s of
        None \<Rightarrow> None
      | Some (v, r) \<Rightarrow>
          (case skip_ws r of
             [] \<Rightarrow> None
           | d # r' \<Rightarrow>
               if d = CHR '']'' then Some ([v], r')
               else if d = CHR '','' then
                 (case scan_items n pf (skip_ws r') of
                    Some (vs, rest) \<Rightarrow> Some (v # vs, rest)
                  | None \<Rightarrow> None)
               else None))"
| "scan_pairs 0 pf s = None"
| "scan_pairs (Suc n) pf s =
     (case s of
        [] \<Rightarrow> None
      | q # cs \<Rightarrow>
          if q \<noteq> CHR 0x22 then None
          else
            (case scan_string cs of
               None \<Rightarrow> None
             | Some (key, r) \<Rightarrow>
                 (case skip_ws r of
                    [] \<Rightarrow> None
                  | colon # r1 \<Rightarrow>
                      if colon \<noteq> CHR '':'' then None
                      else
                        (case scan_once n pf (skip_ws r1) of
                           None \<Rightarrow> None
                         | Some (v, r2) \<Rightarrow>
                             (case skip_ws r2 of
                                [] \<Rightarrow> None
                              | d # r3 \<Rightarrow>
                                  if d = CHR ''}'' then Some ([(key, v)], r3)
                                  else if d = CHR '','' then
                                    (case scan_pairs n pf (skip_ws r3) of
                                       Some (ps, rest) \<Rightarrow> Some ((key, v) # ps, rest)
                                     | None \<Rightarrow> None)
                                  else None)))))"

definition json_loads :: "(string \<Rightarrow> string) \<Rightarrow> string \<Rightarrow> json option" where
  "json_loads parse_float s =
     (case scan_once (2 * length s + 2) parse_float (skip_ws s) of
        Some (v, rest) \<Rightarrow> if skip_ws rest = [] then Some v else None
      | None \<Rightarrow> None)"

section \<open>Processes, clients and observations\<close>

text \<open>
  The two ways the module initialises its globals: with \<^verbatim>\<open>aisuite\<close> imported (a
  client and a model name), and without (\<^verbatim>\<open>client = None\<close>, \<^verbatim>\<open>MODEL = None\<close>).
\<close>

definition model_name :: "string option" where
  "model_name = Some ''groq:meta-llama/llama-4-maverick-17b-128e-instruct''"

definition enabled_globals :: "llm_client \<Rightarrow> globals" where
  "enabled_globals create =
     \<lparr>AISUITE_AVAILABLE = True, client = Some create, MODEL = model_name\<rparr>"

definition disabled_globals :: globals where
  "disabled_globals = \<lparr>AISUITE_AVAILABLE = False, client = None, MODEL = None\<rparr>"

text \<open>Two clients for running the handler: one always completes with a given text, one
  always raises with a given text.\<close>

definition answering :: "string \<Rightarrow> llm_client" where
  "answering completion model messages = Inr (Some completion)"

definition failing :: "string \<Rightarrow> llm_client" where
  "failing reason model messages = Inl (ClientError reason)"

text \<open>A request that names the use case \<^verbatim>\<open>Login\<close> and nothing else, and the messages
  the handler sends for it.\<close>

definition login_request :: json where
  "login_request = JObj [(''useCaseName'', JStr ''Login'')]"

definition login_messages :: "chat_message list" where
  "login_messages =
     (case user_prompt (JStr ''Login'') (JStr ''the system'') (JArr []) of
        Inr prompt \<Rightarrow> chat_messages prompt
      | Inl e \<Rightarrow> [])"

fun is_gateway_call :: "event \<Rightarrow> bool" where
  "is_gateway_call (GatewayCall model messages) = True"
| "is_gateway_call (Log l) = False"

definition gateway_calls :: "event list \<Rightarrow> nat" where
  "gateway_calls evs = length (filter is_gateway_call evs)"

text \<open>
  A decoded object with the required fields filled: the object's own entries, unchanged
  and in place, followed by a placeholder for each required field it lacks.
\<close>

definition with_placeholders :: "(string \<times> json) list \<Rightarrow> (string \<times> json) list" where
  "with_placeholders kvs =
     kvs @ map (\<lambda>field. (field, JStr (placeholder field)))
             (filter (\<lambda>field. field \<notin> set (map fst kvs)) required_fields)"

text \<open>
  The shape the rescue looks for: an opening bracket, white space, an opening brace, any
  span, a closing brace, white space, a closing bracket.
\<close>

definition array_shape :: "string \<Rightarrow> bool" where
  "array_shape t \<longleftrightarrow>
     (\<exists>ws1 span ws2.
        t = ''['' @ ws1 @ ''{'' @ span @ ''}'' @ ws2 @ '']'' \<and>
        list_all is_space ws1 \<and> list_all is_space ws2)"

text \<open>
  \<open>first_greedy s t\<close>: \<open>t\<close> occurs in \<open>s\<close> with that shape, no occurrence of the shape
  starts further left, and none starting at the same place is longer.
\<close>

definition first_greedy :: "string \<Rightarrow> string \<Rightarrow> bool" where
  "first_greedy s t \<longleftrightarrow>
     (\<exists>pre post.
        s = pre @ t @ post \<and> array_shape t \<and>
        (\<forall>pre' t' post'.
           s = pre' @ t' @ post' \<and> array_shape t' \<longrightarrow>
             length pre \<le> length pre' \<and> (length pre' = length pre \<longrightarrow> length t' \<le> length t)))"

section \<open>Properties of the endpoint\<close>

subsection \<open>Shared facts\<close>

lemma after_call_http_status: "http_status (fst (after_call loads outcome)) = 200"
  by (auto simp: after_call_def api_error_def parse_completion_def success_def
        parse_failure_def Let_def split: sum.splits option.splits)

lemma filter_logs: "filter is_gateway_call (map Log ls) = []"
  by (induction ls) auto

lemma after_call_no_calls: "filter is_gateway_call (snd (after_call loads outcome)) = []"
  by (auto simp: after_call_def api_error_def parse_failure_def parse_completion_def Let_def
        filter_logs split: sum.splits option.splits)

lemma call_not_in_after_call:
  "GatewayCall model messages \<notin> set (snd (after_call loads outcome))"
  using after_call_no_calls [of loads outcome]
  by (auto simp: filter_empty_conv)

text \<open>
  The outbound call is in the trace only when the request passed the availability check,
  the validation and the prompt construction; the answer then is what \<open>after_call\<close>
  makes of the client's outcome.
\<close>

lemma gateway_call_reached:
  assumes "client g = Some create"
    and "GatewayCall model messages \<in> set (snd (generate_misuse_cases loads g body))"
  shows "fst (generate_misuse_cases loads g body) =
           fst (after_call loads (create model messages))"
  using assms
  by (auto simp: generate_misuse_cases_def Let_def unexpected_error_def
        call_not_in_after_call
        split: bool.splits option.splits json.splits sum.splits if_splits)

lemma fill_fields_object:
  "distinct fs \<Longrightarrow>
   fill_fields (JObj kvs) fs =
     Inr (JObj (kvs @ map (\<lambda>field. (field, JStr (placeholder field)))
                        (filter (\<lambda>field. field \<notin> set (map fst kvs)) fs)))"
proof (induction fs arbitrary: kvs)
  case Nil
  then show ?case by simp
next
  case (Cons f fs)
  have same: "filter (\<lambda>field. field \<notin> set (map fst (kvs @ [(f, JStr (placeholder f))]))) fs
            = filter (\<lambda>field. field \<notin> set (map fst kvs)) fs"
    using Cons.prems by (auto intro: filter_cong)
  show ?case
    using Cons.prems Cons.IH [of kvs] Cons.IH [of "kvs @ [(f, JStr (placeholder f))]"] same
    by auto
qed

lemma str_contains_prefix: "str_contains (f @ b) f"
proof (cases "f @ b")
  case Nil
  then show ?thesis by simp
next
  case (Cons c cs)
  have "take (length f) (f @ b) = f" by simp
  then show ?thesis
    unfolding Cons by simp
qed

lemma str_contains_inside: "str_contains (a @ f @ b) f"
  by (induction a) (simp_all add: str_contains_prefix)

text \<open>The placeholder is not empty and names the field it stands for.\<close>

lemma placeholder_names_field:
  "placeholder field \<noteq> [] \<and> str_contains (placeholder field) field"
  unfolding placeholder_def using str_contains_inside [of "''Informasi ''" field] by simp

lemma validate_each_objects:
  "validate_each (map JObj objs) = Inr (map (JObj \<circ> with_placeholders) objs)"
  by (induction objs)
     (simp_all add: fill_fields_object required_fields_def with_placeholders_def)

subsection \<open>Service not available\<close>

text \<open>
  C5. When the LLM integration is not available (the flag is off or the client is
  absent), every call answers 503 with status \<open>error\<close>, whatever the body is, and does
  nothing on the way: no validation result, no prompt, no log line, no outbound call.
\<close>

theorem unavailable_returns_503:
  "\<not> AISUITE_AVAILABLE g \<or> client g = None \<Longrightarrow>
     generate_misuse_cases loads g body = (service_unavailable, []) \<and>
     http_status service_unavailable = 503 \<and> status service_unavailable = ''error''"
  by (auto simp: generate_misuse_cases_def service_unavailable_def
        split: bool.splits option.splits)

theorem unavailable_returns_503_witness:
  "\<not> AISUITE_AVAILABLE disabled_globals \<and> client disabled_globals = None \<and>
   generate_misuse_cases (json_loads id) disabled_globals
       (JObj [(''useCaseName'', JStr ''Login'')]) = (service_unavailable, []) \<and>
   http_status service_unavailable = 503 \<and> status service_unavailable = ''error''"
proof -
  have h: "\<not> AISUITE_AVAILABLE disabled_globals \<or> client disabled_globals = None"
    by (simp add: disabled_globals_def)
  have d: "\<not> AISUITE_AVAILABLE disabled_globals \<and> client disabled_globals = None"
    by (simp add: disabled_globals_def)
  show ?thesis
    using d unavailable_returns_503 [OF h, of "json_loads id"
        "JObj [(''useCaseName'', JStr ''Login'')]"]
    by blast
qed

subsection \<open>Validation of the use case name\<close>

text \<open>
  C3, as the claim states it, fails for a name made of white space only: the handler
  tests \<^verbatim>\<open>not use_case_name\<close>, a blank string is not empty, and the request goes on
  to the client. With a client that completes with \<^verbatim>\<open>[]\<close> the answer is 200 and one
  outbound call is made.
\<close>

theorem blank_name_reaches_gateway:
  \<open>http_status (fst (generate_misuse_cases (json_loads id) (enabled_globals (answering ''[]''))
       (JObj [(''useCaseName'', JStr '' '')]))) = 200 \<and>
   gateway_calls (snd (generate_misuse_cases (json_loads id) (enabled_globals (answering ''[]''))
       (JObj [(''useCaseName'', JStr '' '')]))) = 1\<close>
  by code_simp

text \<open>
  C3, amended. For every request whose \<^verbatim>\<open>useCaseName\<close> is absent or is the empty
  string, the handler answers 400 with status \<open>error\<close> and makes no outbound call (it
  does nothing else either).
\<close>

theorem missing_name_returns_400:
  assumes "AISUITE_AVAILABLE g" and "client g = Some create"
    and "map_of d ''useCaseName'' = None \<or> map_of d ''useCaseName'' = Some (JStr [])"
  shows "generate_misuse_cases loads g (JObj d) = (validation_error, []) \<and>
         http_status validation_error = 400 \<and> status validation_error = ''error'' \<and>
         gateway_calls (snd (generate_misuse_cases loads g (JObj d))) = 0"
  using assms
  by (auto simp: generate_misuse_cases_def validation_error_def dict_get_def
        gateway_calls_def)

theorem missing_name_returns_400_witness:
  "AISUITE_AVAILABLE (enabled_globals (answering ''[]'')) \<and>
   client (enabled_globals (answering ''[]'')) = Some (answering ''[]'') \<and>
   (map_of [(''systemName'', JStr ''Bank'')] ''useCaseName'' = None \<or>
    map_of [(''systemName'', JStr ''Bank'')] ''useCaseName'' = Some (JStr [])) \<and>
   generate_misuse_cases (json_loads id) (enabled_globals (answering ''[]''))
       (JObj [(''systemName'', JStr ''Bank'')]) = (validation_error, []) \<and>
   http_status validation_error = 400"
proof -
  have a: "AISUITE_AVAILABLE (enabled_globals (answering ''[]''))"
    by (simp add: enabled_globals_def)
  have c: "client (enabled_globals (answering ''[]'')) = Some (answering ''[]'')"
    by (simp add: enabled_globals_def)
  have n: "map_of [(''systemName'', JStr ''Bank'')] ''useCaseName'' = None \<or>
           map_of [(''systemName'', JStr ''Bank'')] ''useCaseName'' = Some (JStr [])"
    by simp
  show ?thesis
    using a c n missing_name_returns_400 [OF a c n, of "json_loads id"]
    by simp
qed

subsection \<open>Unexpected errors\<close>

text \<open>
  C10. When the integration is available and the body is valid JSON but not an object,
  the handler answers with the unexpected-error response, 500 and status \<open>error\<close>, not
  with the 400 of validation, and makes no outbound call.
\<close>

theorem non_object_body_returns_500:
  assumes "AISUITE_AVAILABLE g" and "client g = Some create" and "\<forall>d. body \<noteq> JObj d"
  shows "generate_misuse_cases loads g body = unexpected_error AttributeError \<and>
         http_status (fst (generate_misuse_cases loads g body)) = 500 \<and>
         status (fst (generate_misuse_cases loads g body)) = ''error'' \<and>
         gateway_calls (snd (generate_misuse_cases loads g body)) = 0"
  using assms
  by (cases body)
     (auto simp: generate_misuse_cases_def unexpected_error_def gateway_calls_def)

theorem non_object_body_returns_500_witness:
  "AISUITE_AVAILABLE (enabled_globals (answering ''[]'')) \<and>
   client (enabled_globals (answering ''[]'')) = Some (answering ''[]'') \<and>
   (\<forall>d. JArr [JStr ''Login''] \<noteq> JObj d) \<and>
   http_status (fst (generate_misuse_cases (json_loads id) (enabled_globals (answering ''[]''))
       (JArr [JStr ''Login'']))) = 500 \<and>
   gateway_calls (snd (generate_misuse_cases (json_loads id) (enabled_globals (answering ''[]''))
       (JArr [JStr ''Login'']))) = 0"
proof -
  have a: "AISUITE_AVAILABLE (enabled_globals (answering ''[]''))"
    by (simp add: enabled_globals_def)
  have c: "client (enabled_globals (answering ''[]'')) = Some (answering ''[]'')"
    by (simp add: enabled_globals_def)
  have b: "\<forall>d. JArr [JStr ''Login''] \<noteq> JObj d"
    by simp
  show ?thesis
    using a c b non_object_body_returns_500 [OF a c b, of "json_loads id"]
    by blast
qed

text \<open>
  C9. Whenever the handler answers 500, the body has status \<open>error\<close>, a message, and a
  data field that is the empty array.
\<close>

theorem status_500_has_empty_data:
  assumes "http_status (fst (generate_misuse_cases loads g body)) = 500"
  shows "status (fst (generate_misuse_cases loads g body)) = ''error'' \<and>
         message (fst (generate_misuse_cases loads g body)) \<noteq> None \<and>
         data (fst (generate_misuse_cases loads g body)) = Some (JArr [])"
  using assms
  by (auto simp: generate_misuse_cases_def unexpected_error_def service_unavailable_def
        validation_error_def Let_def after_call_http_status
        split: bool.splits option.splits json.splits sum.splits if_splits)

theorem status_500_has_empty_data_witness:
  "http_status (fst (generate_misuse_cases (json_loads id) (enabled_globals (answering ''[]''))
       (JObj [(''useCaseName'', JStr ''Login''), (''otherUseCases'', JInt 5)]))) = 500 \<and>
   data (fst (generate_misuse_cases (json_loads id) (enabled_globals (answering ''[]''))
       (JObj [(''useCaseName'', JStr ''Login''), (''otherUseCases'', JInt 5)]))) = Some (JArr [])"
proof -
  have h: "http_status (fst (generate_misuse_cases (json_loads id)
       (enabled_globals (answering ''[]''))
       (JObj [(''useCaseName'', JStr ''Login''), (''otherUseCases'', JInt 5)]))) = 500"
    by code_simp
  show ?thesis
    using h status_500_has_empty_data [OF h]
    by simp
qed

subsection \<open>The rescue path\<close>

text \<open>
  C2 asks that every element of a successful answer has the four fields. The strict
  path fills them; the rescue path returns the decoded array as it is. A completion
  that wraps \<^verbatim>\<open>[{"name":"X"}]\<close> in prose comes back with status \<open>success\<close> and an
  element that has no \<^verbatim>\<open>description\<close>, \<^verbatim>\<open>actor\<close> or \<^verbatim>\<open>impact\<close>.
\<close>

theorem rescued_array_not_validated:
  \<open>fst (generate_misuse_cases (json_loads id)
          (enabled_globals (answering ''Here: [{"name":"X"}]''))
          (JObj [(''useCaseName'', JStr ''Login'')]))
   = success (JArr [JObj [(''name'', JStr ''X'')]])\<close>
  by code_simp

subsection \<open>Failures after the call\<close>

text \<open>
  C1. Whenever the outbound call is made and the client raises, or the text it returns
  is refused by the strict decode and by the rescue (no match, or a match that does not
  decode), the handler answers 200 with status \<open>error\<close> and the empty array as data.
\<close>

theorem failure_after_call_is_soft_error:
  assumes "client g = Some create"
    and "GatewayCall model messages \<in> set (snd (generate_misuse_cases loads g body))"
    and "create model messages = Inl e \<or>
         (create model messages = Inr (Some text) \<and> loads text = None \<and>
          (re_search json_pattern text = None \<or>
           (re_search json_pattern text = Some t \<and> loads t = None)))"
  shows "http_status (fst (generate_misuse_cases loads g body)) = 200 \<and>
         status (fst (generate_misuse_cases loads g body)) = ''error'' \<and>
         data (fst (generate_misuse_cases loads g body)) = Some (JArr [])"
proof -
  have r: "fst (generate_misuse_cases loads g body) =
             fst (after_call loads (create model messages))"
    using assms(1,2) by (rule gateway_call_reached)
  from assms(3) show ?thesis
    unfolding r
    by (auto simp: after_call_def api_error_def parse_completion_def parse_failure_def
          Let_def)
qed

theorem failure_after_call_is_soft_error_witness:
  "json_loads id ''Maaf, tidak bisa.'' = None \<and>
   re_search json_pattern ''Maaf, tidak bisa.'' = None \<and>
   http_status (fst (generate_misuse_cases (json_loads id)
       (enabled_globals (answering ''Maaf, tidak bisa.'')) login_request)) = 200 \<and>
   status (fst (generate_misuse_cases (json_loads id)
       (enabled_globals (answering ''Maaf, tidak bisa.'')) login_request)) = ''error'' \<and>
   data (fst (generate_misuse_cases (json_loads id)
       (enabled_globals (answering ''Maaf, tidak bisa.'')) login_request)) = Some (JArr [])"
proof -
  let ?text = "''Maaf, tidak bisa.''"
  have c: "client (enabled_globals (answering ?text)) = Some (answering ?text)"
    by (simp add: enabled_globals_def)
  have m: "GatewayCall model_name login_messages \<in>
             set (snd (generate_misuse_cases (json_loads id)
                    (enabled_globals (answering ?text)) login_request))"
    by code_simp
  have l: "json_loads id ?text = None"
    by code_simp
  have s: "re_search json_pattern ?text = None"
    by code_simp
  have a: "answering ?text model_name login_messages = Inr (Some ?text)"
    by (simp add: answering_def)
  have h: "answering ?text model_name login_messages = Inl TypeError \<or>
           (answering ?text model_name login_messages = Inr (Some ?text) \<and>
            json_loads id ?text = None \<and>
            (re_search json_pattern ?text = None \<or>
             (re_search json_pattern ?text = Some [] \<and> json_loads id [] = None)))"
    using a l s by blast
  show ?thesis
    using l s failure_after_call_is_soft_error [OF c m h]
    by blast
qed

subsection \<open>The strict path\<close>

text \<open>
  C4, as the claim states it, fails for an array whose elements are not objects: the
  validation loop raises on a number, and the answer is the soft error. The completion
  \<^verbatim>\<open>[1]\<close> is a valid JSON array and the status is \<open>error\<close>.
\<close>

theorem array_of_numbers_is_error:
  \<open>status (fst (generate_misuse_cases (json_loads id) (enabled_globals (answering ''[1]''))
       login_request)) = ''error''\<close>
  by code_simp

text \<open>
  C4, amended. For every request that reaches the client, if the text returned decodes
  strictly as a JSON array whose elements are all objects, the answer has status
  \<open>success\<close> and its data is that array with the required fields filled: the same
  number of elements in the same order, each object keeping all its entries unchanged,
  the expected ones and the others, followed by a placeholder for each required field it
  lacks.
\<close>

theorem strict_array_of_objects_is_normalised:
  assumes "client g = Some create"
    and "GatewayCall model messages \<in> set (snd (generate_misuse_cases loads g body))"
    and "create model messages = Inr (Some text)"
    and "loads text = Some (JArr (map JObj objs))"
  shows "fst (generate_misuse_cases loads g body) =
           success (JArr (map (JObj \<circ> with_placeholders) objs))"
proof -
  have r: "fst (generate_misuse_cases loads g body) =
             fst (after_call loads (create model messages))"
    using assms(1,2) by (rule gateway_call_reached)
  show ?thesis
    unfolding r
    using assms(3,4)
    by (simp add: after_call_def parse_completion_def validate_each_objects Let_def)
qed

theorem strict_array_of_objects_is_normalised_witness:
  \<open>json_loads id ''[{"name":"X"}]'' = Some (JArr (map JObj [[(''name'', JStr ''X'')]])) \<and>
   fst (generate_misuse_cases (json_loads id)
         (enabled_globals (answering ''[{"name":"X"}]'')) login_request) =
     success (JArr (map (JObj \<circ> with_placeholders) [[(''name'', JStr ''X'')]]))\<close>
proof -
  let ?text = \<open>''[{"name":"X"}]''\<close>
  have c: "client (enabled_globals (answering ?text)) = Some (answering ?text)"
    by (simp add: enabled_globals_def)
  have m: "GatewayCall model_name login_messages \<in>
             set (snd (generate_misuse_cases (json_loads id)
                    (enabled_globals (answering ?text)) login_request))"
    by code_simp
  have a: "answering ?text model_name login_messages = Inr (Some ?text)"
    by (simp add: answering_def)
  have l: "json_loads id ?text = Some (JArr (map JObj [[(''name'', JStr ''X'')]]))"
    by code_simp
  show ?thesis
    using l strict_array_of_objects_is_normalised [OF c m a l]
    by blast
qed

subsection \<open>Determinism\<close>

text \<open>
  C7. The answer is a function of the request body and of what the client returns: two
  runs on the same body, in processes whose clients give the same outcome for the same
  messages, answer with the same status, message and data.
\<close>

theorem same_completion_same_response:
  assumes "AISUITE_AVAILABLE g1 = AISUITE_AVAILABLE g2"
    and "client g1 = Some create1" and "client g2 = Some create2"
    and "\<forall>messages. create1 (MODEL g1) messages = create2 (MODEL g2) messages"
  shows "fst (generate_misuse_cases loads g1 body) = fst (generate_misuse_cases loads g2 body)"
  using assms
  by (auto simp: generate_misuse_cases_def Let_def
        split: bool.splits option.splits json.splits sum.splits if_splits)

theorem same_completion_same_response_witness:
  "AISUITE_AVAILABLE (enabled_globals (answering ''[]'')) =
     AISUITE_AVAILABLE
       (enabled_globals (failing ''x'')\<lparr>client := Some (answering ''[]''), MODEL := None\<rparr>) \<and>
   fst (generate_misuse_cases (json_loads id) (enabled_globals (answering ''[]''))
          login_request) =
   fst (generate_misuse_cases (json_loads id)
          (enabled_globals (failing ''x'')\<lparr>client := Some (answering ''[]''), MODEL := None\<rparr>)
          login_request)"
proof -
  let ?g1 = "enabled_globals (answering ''[]'')"
  let ?g2 = "enabled_globals (failing ''x'')\<lparr>client := Some (answering ''[]''), MODEL := None\<rparr>"
  have a: "AISUITE_AVAILABLE ?g1 = AISUITE_AVAILABLE ?g2"
    by (simp add: enabled_globals_def)
  have c1: "client ?g1 = Some (answering ''[]'')"
    by (simp add: enabled_globals_def)
  have c2: "client ?g2 = Some (answering ''[]'')"
    by (simp add: enabled_globals_def)
  have e: "\<forall>messages. answering ''[]'' (MODEL ?g1) messages =
                      answering ''[]'' (MODEL ?g2) messages"
    by (simp add: answering_def)
  show ?thesis
    using a same_completion_same_response [OF a c1 c2 e]
    by blast
qed

subsection \<open>The request log\<close>

text \<open>
  C8, as the claim states it, fails for a last message longer than 100 characters: the
  logger appends \<^verbatim>\<open>...\<close> to the first 100 characters, so the preview of a message
  of 101 characters has 103.
\<close>

theorem long_preview_has_103_characters:
  \<open>LastMessagePreview (replicate 100 (CHR ''a'') @ ''...'') \<in>
     set (log_request None
            [[(''role'', ''user''), (''content'', replicate 101 (CHR ''a''))]] ''0.7'' []) \<and>
   length (replicate 100 (CHR ''a'') @ ''...'') = 103\<close>
  by code_simp

text \<open>
  C8, amended. For every message list logged, the preview of the last message's content
  is its first 100 characters, followed by \<^verbatim>\<open>...\<close> when the content is longer than
  that: at most 100 characters of the content, at most 103 characters in all.
\<close>

theorem preview_keeps_100_and_marks:
  assumes "LastMessagePreview p \<in> set (log_request model messages temperature kwargs)"
  shows "p = take 100 (dict_get (last messages) ''content'' []) @
               (if length (dict_get (last messages) ''content'' []) > 100
                then ''...'' else []) \<and>
         take 100 p = take 100 (dict_get (last messages) ''content'' []) \<and>
         length p \<le> 103"
  using assms
  by (auto simp: log_request_def preview_def split: if_splits)

theorem preview_keeps_100_and_marks_witness:
  "LastMessagePreview ''Use Case: Login'' \<in>
     set (log_request model_name
            [[(''role'', ''user''), (''content'', ''Use Case: Login'')]] ''0.7'' []) \<and>
   length ''Use Case: Login'' \<le> 103"
proof -
  have h: "LastMessagePreview ''Use Case: Login'' \<in>
     set (log_request model_name
            [[(''role'', ''user''), (''content'', ''Use Case: Login'')]] ''0.7'' [])"
    by code_simp
  show ?thesis
    using h preview_keeps_100_and_marks [OF h]
    by blast
qed

subsection \<open>The rescue pattern, characterised\<close>

text \<open>
  What the backtracking matcher finds for \<open>json_pattern\<close>: the white space after the
  opening bracket is taken whole, the dot-star takes the longest span after which the
  closing part still matches, and the search returns the leftmost start that works.
\<close>

lemma brackets_not_space:
  "\<not> is_space (CHR ''['')" "\<not> is_space (CHR '']'')"
  "\<not> is_space (CHR ''{'')" "\<not> is_space (CHR ''}'')"
  by (simp_all add: is_space_def)

lemma match_here_suffix: "match_here p s = Some r \<Longrightarrow> \<exists>t. s = t @ r"
proof (induction p s rule: match_here.induct)
  case (1 s)
  then show ?case by simp
next
  case (2 a p)
  then show ?case by simp
next
  case (3 a p c cs)
  then show ?case
    by (auto split: if_splits)
next
  case (4 a p)
  then show ?case by simp
next
  case (5 a p c cs)
  then show ?case
    by (auto split: if_splits option.splits)
qed

lemma star_space_then_char:
  "\<not> is_space x \<Longrightarrow>
   match_here (Star Space # One (Chr x) # p) s =
     match_here (One (Chr x) # p) (dropWhile is_space s)"
proof (induction s)
  case Nil
  then show ?case by simp
next
  case (Cons c cs)
  then show ?case
    by (cases "match_here (One (Chr x) # p) (dropWhile is_space cs)") auto
qed

lemma drop_spaces_iff:
  "\<not> is_space x \<Longrightarrow>
   dropWhile is_space cs = x # r \<longleftrightarrow> (\<exists>ws. cs = ws @ x # r \<and> list_all is_space ws)"
proof
  assume x: "\<not> is_space x" and d: "dropWhile is_space cs = x # r"
  have "cs = takeWhile is_space cs @ x # r"
    using d takeWhile_dropWhile_id [of is_space cs] by simp
  moreover have "list_all is_space (takeWhile is_space cs)"
    by (simp add: list_all_iff) (meson set_takeWhileD)
  ultimately show "\<exists>ws. cs = ws @ x # r \<and> list_all is_space ws" by blast
next
  assume x: "\<not> is_space x" and "\<exists>ws. cs = ws @ x # r \<and> list_all is_space ws"
  then obtain ws where "cs = ws @ x # r" and "list_all is_space ws" by blast
  then show "dropWhile is_space cs = x # r"
    using x by (simp add: list_all_iff dropWhile_append2)
qed

lemma single_char: "match_here [One (Chr x)] s = Some r \<longleftrightarrow> s = x # r"
  by (cases s) auto

lemma closing_iff:
  "match_here closing u = Some r \<longleftrightarrow>
     (\<exists>ws. u = CHR ''}'' # ws @ CHR '']'' # r \<and> list_all is_space ws)"
proof (cases u)
  case Nil
  then show ?thesis by (simp add: closing_def)
next
  case (Cons c cs)
  have "match_here closing u = Some r \<longleftrightarrow> (c = CHR ''}'' \<and> dropWhile is_space cs = CHR '']'' # r)"
    using Cons
    by (auto simp: closing_def star_space_then_char brackets_not_space single_char
          split: if_splits)
  then show ?thesis
    using Cons drop_spaces_iff [OF brackets_not_space(2), of cs r] by auto
qed

lemma star_any_sound:
  "match_here (Star AnyChar # p) s = Some r \<Longrightarrow> \<exists>a u. s = a @ u \<and> match_here p u = Some r"
proof (induction s)
  case Nil
  then show ?case by simp
next
  case (Cons c cs)
  show ?case
  proof (cases "match_here (Star AnyChar # p) cs")
    case None
    with Cons.prems have "match_here p (c # cs) = Some r" by simp
    then show ?thesis by (metis append_Nil)
  next
    case (Some r')
    with Cons.prems have "r' = r" by simp
    with Some Cons.IH obtain a u where "cs = a @ u" and "match_here p u = Some r" by blast
    then show ?thesis by (metis append_Cons)
  qed
qed

text \<open>A closing part that starts later ends later.\<close>

lemma closing_mono:
  assumes "match_here closing (a @ u) = Some r'" and "match_here closing u = Some r"
  shows "length r \<le> length r'"
proof (cases a)
  case Nil
  with assms show ?thesis by simp
next
  case (Cons x a1)
  obtain ws' where w': "a @ u = CHR ''}'' # ws' @ CHR '']'' # r'" and s': "list_all is_space ws'"
    using assms(1) closing_iff by blast
  obtain ws where w: "u = CHR ''}'' # ws @ CHR '']'' # r"
    using assms(2) closing_iff by blast
  from w' Cons have eq: "a1 @ u = ws' @ CHR '']'' # r'" by simp
  then consider z where "a1 = ws' @ z" and "z @ u = CHR '']'' # r'"
    | z where "ws' = a1 @ z" and "u = z @ CHR '']'' # r'"
    by (auto simp: append_eq_append_conv2)
  then show ?thesis
  proof cases
    case 1
    show ?thesis
    proof (cases z)
      case Nil
      with 1 w show ?thesis by simp
    next
      case (Cons y z')
      with 1 have "r' = z' @ u" by simp
      with w show ?thesis by simp
    qed
  next
    case 2
    show ?thesis
    proof (cases z)
      case Nil
      with 2 w show ?thesis by simp
    next
      case (Cons y z')
      with 2 w have "y = CHR ''}''" by simp
      moreover have "y \<in> set ws'" using 2 Cons by simp
      ultimately show ?thesis
        using s' brackets_not_space by (auto simp: list_all_iff)
    qed
  qed
qed

lemma star_any_greedy:
  assumes "match_here closing u = Some r'"
  shows "\<exists>r. match_here (Star AnyChar # closing) (a @ u) = Some r \<and> length r \<le> length r'"
proof (induction a)
  case Nil
  show ?case
  proof (cases u)
    case Nil
    with assms show ?thesis by (simp add: closing_def)
  next
    case (Cons c cs)
    show ?thesis
    proof (cases "match_here (Star AnyChar # closing) cs")
      case None
      with Cons assms show ?thesis by simp
    next
      case (Some r)
      then obtain a' u' where "cs = a' @ u'" and m: "match_here closing u' = Some r"
        using star_any_sound by blast
      then have "match_here closing ((c # a') @ u') = Some r'"
        using assms Cons by simp
      then have "length r \<le> length r'"
        using m closing_mono by blast
      with Some Cons show ?thesis by simp
    qed
  qed
next
  case (Cons x a)
  then show ?case by auto
qed

lemma one_char_cons:
  "match_here (One (Chr x) # p) s = Some r \<longleftrightarrow> (\<exists>s'. s = x # s' \<and> match_here p s' = Some r)"
  by (cases s) auto

lemma json_pattern_parts:
  "json_pattern =
     One (Chr (CHR ''['')) # Star Space # One (Chr (CHR ''{'')) # Star AnyChar # closing"
  by (simp add: json_pattern_def closing_def)

lemma pattern_unfold:
  "match_here json_pattern s = Some rest \<longleftrightarrow>
     (\<exists>s1 s2. s = CHR ''['' # s1 \<and> dropWhile is_space s1 = CHR ''{'' # s2 \<and>
              match_here (Star AnyChar # closing) s2 = Some rest)"
  unfolding json_pattern_parts one_char_cons
  by (simp only: star_space_then_char [OF brackets_not_space(3)] one_char_cons) blast

lemma pattern_sound:
  assumes "match_here json_pattern s = Some rest"
  shows "\<exists>t. s = t @ rest \<and> array_shape t"
proof -
  obtain s1 s2 where s: "s = CHR ''['' # s1" and d: "dropWhile is_space s1 = CHR ''{'' # s2"
    and m: "match_here (Star AnyChar # closing) s2 = Some rest"
    using assms pattern_unfold by blast
  obtain ws1 where s1: "s1 = ws1 @ CHR ''{'' # s2" and w1: "list_all is_space ws1"
    using d drop_spaces_iff [OF brackets_not_space(3)] by blast
  obtain a u where s2: "s2 = a @ u" and c: "match_here closing u = Some rest"
    using m star_any_sound by blast
  obtain ws2 where u: "u = CHR ''}'' # ws2 @ CHR '']'' # rest" and w2: "list_all is_space ws2"
    using c closing_iff by blast
  have "s = (''['' @ ws1 @ ''{'' @ a @ ''}'' @ ws2 @ '']'') @ rest"
    using s s1 s2 u by simp
  moreover have "array_shape (''['' @ ws1 @ ''{'' @ a @ ''}'' @ ws2 @ '']'')"
    unfolding array_shape_def using w1 w2 by blast
  ultimately show ?thesis by blast
qed

lemma pattern_complete:
  assumes "array_shape t"
  shows "\<exists>rest. match_here json_pattern (t @ post) = Some rest \<and> length rest \<le> length post"
proof -
  obtain ws1 span ws2 where t: "t = ''['' @ ws1 @ ''{'' @ span @ ''}'' @ ws2 @ '']''"
    and w1: "list_all is_space ws1" and w2: "list_all is_space ws2"
    using assms unfolding array_shape_def by blast
  have c: "match_here closing (CHR ''}'' # ws2 @ CHR '']'' # post) = Some post"
    using w2 closing_iff by blast
  obtain rest where r: "match_here (Star AnyChar # closing)
                          (span @ CHR ''}'' # ws2 @ CHR '']'' # post) = Some rest"
    and l: "length rest \<le> length post"
    using star_any_greedy [OF c] by blast
  have d: "dropWhile is_space (ws1 @ CHR ''{'' # span @ CHR ''}'' # ws2 @ CHR '']'' # post)
             = CHR ''{'' # span @ CHR ''}'' # ws2 @ CHR '']'' # post"
    using w1 drop_spaces_iff [OF brackets_not_space(3)] by blast
  have "match_here json_pattern (t @ post) = Some rest"
    unfolding pattern_unfold using t d r by simp
  with l show ?thesis by blast
qed

lemma re_search_found:
  "re_search p s = Some t \<Longrightarrow>
     \<exists>pre post. s = pre @ t @ post \<and> match_here p (t @ post) = Some post \<and>
       (\<forall>pre' u. s = pre' @ u \<and> length pre' < length pre \<longrightarrow> match_here p u = None)"
proof (induction s)
  case Nil
  then have "t = []" and "match_here p [] \<noteq> None"
    by (auto split: option.splits)
  moreover have "\<And>r. match_here p [] = Some r \<Longrightarrow> r = []"
    using match_here_suffix by fastforce
  ultimately show ?case by auto
next
  case (Cons c cs)
  show ?case
  proof (cases "match_here p (c # cs)")
    case None
    with Cons.prems have "re_search p cs = Some t" by simp
    then obtain pre post where cs: "cs = pre @ t @ post"
      and m: "match_here p (t @ post) = Some post"
      and f: "\<forall>pre' u. cs = pre' @ u \<and> length pre' < length pre \<longrightarrow> match_here p u = None"
      using Cons.IH by blast
    have "\<forall>pre' u. c # cs = pre' @ u \<and> length pre' < length (c # pre) \<longrightarrow> match_here p u = None"
    proof (intro allI impI)
      fix pre' u
      assume a: "c # cs = pre' @ u \<and> length pre' < length (c # pre)"
      show "match_here p u = None"
      proof (cases pre')
        case Nil
        with a None show ?thesis by simp
      next
        case (Cons x xs)
        with a f show ?thesis by auto
      qed
    qed
    moreover have "c # cs = (c # pre) @ t @ post" using cs by simp
    ultimately show ?thesis using m by blast
  next
    case (Some rest)
    with Cons.prems have t: "t = take (length (c # cs) - length rest) (c # cs)" by simp
    obtain t0 where t0: "c # cs = t0 @ rest"
      using Some match_here_suffix by blast
    then have "length (c # cs) = length t0 + length rest"
      by (metis length_append)
    then have "t = t0" using t t0 by (metis add_diff_cancel_right' append_eq_conv_conj)
    then have "c # cs = [] @ t @ rest" and "match_here p (t @ rest) = Some rest"
      using t0 Some by auto
    then show ?thesis
      by (metis length_greater_0_conv less_nat_zero_code list.size(3))
  qed
qed

lemma re_search_none:
  "re_search p s = None \<Longrightarrow> s = pre @ u \<Longrightarrow> match_here p u = None"
proof (induction s arbitrary: pre)
  case Nil
  then show ?case by (auto split: option.splits)
next
  case (Cons c cs)
  show ?case
  proof (cases pre)
    case Nil
    with Cons.prems show ?thesis by (auto split: option.splits)
  next
    case (Cons x xs)
    with Cons.prems Cons.IH [of xs] show ?thesis by (auto split: option.splits)
  qed
qed

lemma search_finds_first_greedy:
  assumes "re_search json_pattern s = Some t"
  shows "first_greedy s t"
proof -
  obtain pre post where s: "s = pre @ t @ post"
    and m: "match_here json_pattern (t @ post) = Some post"
    and f: "\<forall>pre' u. s = pre' @ u \<and> length pre' < length pre \<longrightarrow>
              match_here json_pattern u = None"
    using re_search_found [OF assms] by blast
  obtain t0 where "t @ post = t0 @ post" and "array_shape t0"
    using pattern_sound [OF m] by blast
  then have shape: "array_shape t" by simp
  have best: "length pre \<le> length pre' \<and> (length pre' = length pre \<longrightarrow> length t' \<le> length t)"
    if d: "s = pre' @ t' @ post'" and a: "array_shape t'" for pre' t' post'
  proof -
    obtain rest where r: "match_here json_pattern (t' @ post') = Some rest"
      and l: "length rest \<le> length post'"
      using pattern_complete [OF a] by blast
    have 1: "length pre \<le> length pre'"
      using f d r by (metis not_le_imp_less option.distinct(1))
    have 2: "length t' \<le> length t" if e: "length pre' = length pre"
    proof -
      have "pre' = pre" and same: "t' @ post' = t @ post"
        using s d e by auto
      with r m have "rest = post" by simp
      with l have "length post \<le> length post'" by simp
      moreover have "length t' + length post' = length t + length post"
        using same by (metis length_append)
      ultimately show ?thesis by simp
    qed
    from 1 2 show ?thesis by blast
  qed
  show ?thesis
    unfolding first_greedy_def using s shape best by blast
qed

lemma search_none_no_shape:
  assumes "re_search json_pattern s = None"
  shows "\<not> (\<exists>pre t post. s = pre @ t @ post \<and> array_shape t)"
proof
  assume "\<exists>pre t post. s = pre @ t @ post \<and> array_shape t"
  then obtain pre t post where s: "s = pre @ t @ post" and a: "array_shape t" by blast
  have "match_here json_pattern (t @ post) = None"
    using re_search_none [OF assms s] .
  then show False
    using pattern_complete [OF a, of post] by simp
qed

subsection \<open>Order of the recovery stages\<close>

text \<open>
  C6. For every completion text: when the strict decode of the whole text succeeds, the
  outcome is decided by the decoded value alone and no search takes place; when it fails,
  the outcome depends on the search for the pattern only. If the search finds nothing,
  the text has no substring of the shape (bracket, white space, brace, span, brace, white
  space, bracket) and the outcome is the parse failure. If it finds \<open>t\<close>, then \<open>t\<close>
  is the leftmost substring of that shape and the longest one starting there; \<open>t\<close>
  alone is decoded, and the outcome is success with the decoded value, or the parse
  failure when \<open>t\<close> does not decode. Nothing else is tried.
\<close>

theorem strict_decode_then_one_rescue:
  "(loads result = Some v \<longrightarrow>
      parse_completion loads result =
        (case validate_structure v of
           Inl e \<Rightarrow> api_error e
         | Inr v' \<Rightarrow> (success v', []))) \<and>
   (loads result = None \<and> re_search json_pattern result = None \<longrightarrow>
      \<not> (\<exists>pre t post. result = pre @ t @ post \<and> array_shape t) \<and>
      parse_completion loads result = parse_failure) \<and>
   (loads result = None \<and> re_search json_pattern result = Some t \<longrightarrow>
      first_greedy result t \<and>
      (loads t = Some w \<longrightarrow> parse_completion loads result = (success w, [])) \<and>
      (loads t = None \<longrightarrow> fst (parse_completion loads result) = fst parse_failure))"
proof (intro conjI impI)
  assume "loads result = Some v"
  then show "parse_completion loads result =
        (case validate_structure v of
           Inl e \<Rightarrow> api_error e
         | Inr v' \<Rightarrow> (success v', []))"
    by (simp add: parse_completion_def)
next
  assume a: "loads result = None \<and> re_search json_pattern result = None"
  then show "\<not> (\<exists>pre t post. result = pre @ t @ post \<and> array_shape t)"
    using search_none_no_shape by blast
  from a show "parse_completion loads result = parse_failure"
    by (simp add: parse_completion_def)
next
  assume a: "loads result = None \<and> re_search json_pattern result = Some t"
  then show "first_greedy result t"
    using search_finds_first_greedy by blast
  {
    assume "loads t = Some w"
    with a show "parse_completion loads result = (success w, [])"
      by (simp add: parse_completion_def)
  }
  {
    assume "loads t = None"
    with a show "fst (parse_completion loads result) = fst parse_failure"
      by (simp add: parse_completion_def)
  }
qed

theorem strict_decode_then_one_rescue_witness:
  \<open>json_loads id ''Here: [{"name":"X"}]'' = None \<and>
   re_search json_pattern ''Here: [{"name":"X"}]'' = Some ''[{"name":"X"}]'' \<and>
   json_loads id ''[{"name":"X"}]'' = Some (JArr [JObj [(''name'', JStr ''X'')]]) \<and>
   first_greedy ''Here: [{"name":"X"}]'' ''[{"name":"X"}]'' \<and>
   parse_completion (json_loads id) ''Here: [{"name":"X"}]'' =
     (success (JArr [JObj [(''name'', JStr ''X'')]]), [])\<close>
proof -
  let ?text = \<open>''Here: [{"name":"X"}]''\<close>
  let ?t = \<open>''[{"name":"X"}]''\<close>
  have l: "json_loads id ?text = None"
    by code_simp
  have s: "re_search json_pattern ?text = Some ?t"
    by code_simp
  have d: "json_loads id ?t = Some (JArr [JObj [(''name'', JStr ''X'')]])"
    by code_simp
  show ?thesis
    using l s d
      strict_decode_then_one_rescue [of "json_loads id" ?text JNull ?t
        "JArr [JObj [(''name'', JStr ''X'')]]"]
    by blast
qed

end
